theory Spec2Isabelle
  imports Main "HOL-Library.Word"
begin

unbundle bit_operations_syntax

section \<open>JavaScript primitives used by the sources\<close>

text \<open>
  Strings are modelled as byte strings. The strings the firewall handles (IP literals,
  list entries, country codes, locale names, terminal types) are ASCII, and case mapping
  is the ASCII one. A JavaScript number that may be \<open>NaN\<close> is an \<open>int option\<close> with
  \<open>None\<close> for \<open>NaN\<close>; a value that may be \<open>undefined\<close>, \<open>null\<close> or not a string is a
  \<open>string option\<close> with \<open>None\<close> for those.
\<close>

definition toLowerChar :: "char \<Rightarrow> char" where
  "toLowerChar c =
     (let n = (of_char c :: nat) in if 65 \<le> n \<and> n \<le> 90 then char_of (n + 32) else c)"

definition toUpperChar :: "char \<Rightarrow> char" where
  "toUpperChar c =
     (let n = (of_char c :: nat) in if 97 \<le> n \<and> n \<le> 122 then char_of (n - 32) else c)"

definition toLowerCase :: "string \<Rightarrow> string" where
  "toLowerCase s = map toLowerChar s"

definition toUpperCase :: "string \<Rightarrow> string" where
  "toUpperCase s = map toUpperChar s"

text \<open>\<open>s.startsWith(p)\<close>.\<close>

fun startsWith :: "string \<Rightarrow> string \<Rightarrow> bool" where
  "startsWith s [] = True"
| "startsWith [] (p # ps) = False"
| "startsWith (c # cs) (p # ps) = (c = p \<and> startsWith cs ps)"

text \<open>\<open>s.includes(sub)\<close>: \<open>sub\<close> occurs in \<open>s\<close> as a contiguous substring.\<close>

fun includesStr :: "string \<Rightarrow> string \<Rightarrow> bool" where
  "includesStr [] sub = (sub = [])"
| "includesStr (c # cs) sub = (startsWith (c # cs) sub \<or> includesStr cs sub)"

text \<open>\<open>s.split(sep)\<close> for a one-character separator: never empty, \<open>''''.split(sep)\<close> is \<open>['''']\<close>.\<close>

fun split :: "char \<Rightarrow> string \<Rightarrow> string list" where
  "split sep [] = [[]]"
| "split sep (c # cs) =
     (if c = sep then [] # split sep cs
      else (case split sep cs of [] \<Rightarrow> [[c]] | p # ps \<Rightarrow> (c # p) # ps))"

definition isWhiteSpace :: "char \<Rightarrow> bool" where
  "isWhiteSpace c = ((of_char c :: nat) \<in> {9, 10, 11, 12, 13, 32, 160})"

definition isDigit :: "char \<Rightarrow> bool" where
  "isDigit c = (48 \<le> (of_char c :: nat) \<and> (of_char c :: nat) \<le> 57)"

definition digitsValue :: "string \<Rightarrow> int" where
  "digitsValue ds = foldl (\<lambda>acc c. 10 * acc + (int (of_char c) - 48)) 0 ds"

text \<open>
  \<open>parseInt(s, 10)\<close>: leading white space is skipped, an optional sign is read, then the
  longest run of decimal digits; no digit gives \<open>NaN\<close>. (The value is exact here; the
  source's doubles round beyond \<open>2^53\<close>.)
\<close>

definition parseInt :: "string \<Rightarrow> int option" where
  "parseInt s =
     (let s1 = dropWhile isWhiteSpace s;
          neg = (case s1 of [] \<Rightarrow> False | c # _ \<Rightarrow> c = CHR ''-'');
          s2 = (case s1 of [] \<Rightarrow> [] | c # r \<Rightarrow> if c = CHR ''-'' \<or> c = CHR ''+'' then r else s1);
          ds = takeWhile isDigit s2
      in if ds = [] then None
         else Some (if neg then - digitsValue ds else digitsValue ds))"

text \<open>
  \<open>ToInt32\<close> and \<open>ToUint32\<close> keep the same low 32 bits (\<open>NaN\<close> becomes 0); \<open>sint\<close> reads
  them as the signed result of \<open><<\<close>, \<open>uint\<close> as the unsigned result of \<open>>>> 0\<close>.
\<close>

definition toInt32 :: "int option \<Rightarrow> 32 word" where
  "toInt32 v = (case v of None \<Rightarrow> 0 | Some n \<Rightarrow> word_of_int n)"

section \<open>Address utilities (ipfilter.js)\<close>

text \<open>\<open>ipAddress.replace(/^::ffff:/i, '')\<close>: one leading \<open>::ffff:\<close>, in any case, is removed.\<close>

definition hasMappedPrefix :: "string \<Rightarrow> bool" where
  "hasMappedPrefix s = (toLowerCase (take 7 s) = ''::ffff:'')"

definition cleanIp :: "string \<Rightarrow> string" where
  "cleanIp ipAddress = (if hasMappedPrefix ipAddress then drop 7 ipAddress else ipAddress)"

text \<open>
  \<open>ipToInt\<close>: \<open>parts.reduce((acc, part) => (acc << 8) + parseInt(part, 10), 0) >>> 0\<close>,
  or \<open>null\<close> when the string does not have four dot-separated parts.
\<close>

definition ipToIntStep :: "int option \<Rightarrow> string \<Rightarrow> int option" where
  "ipToIntStep acc part =
     (case parseInt part of
        None \<Rightarrow> None
      | Some p \<Rightarrow> Some (sint (push_bit 8 (toInt32 acc)) + p))"

definition ipToInt :: "string \<Rightarrow> 32 word option" where
  "ipToInt ip =
     (let parts = split (CHR ''.'') ip
      in if length parts \<noteq> 4 then None
         else Some (toInt32 (foldl ipToIntStep (Some 0) parts)))"

text \<open>
  \<open>(~0 << (32 - parseInt(bits, 10))) >>> 0\<close>: the shift count of \<open><<\<close> is taken modulo 32,
  and a \<open>NaN\<close> count is 0.
\<close>

definition cidrMask :: "string \<Rightarrow> 32 word" where
  "cidrMask bitsStr =
     (case parseInt bitsStr of
        None \<Rightarrow> - 1
      | Some n \<Rightarrow> push_bit (nat ((32 - n) mod 32)) (- 1))"

definition ipMatchesCIDR :: "string \<Rightarrow> string \<Rightarrow> bool" where
  "ipMatchesCIDR ip cidr =
     (case split (CHR ''/'') cidr of
        rangeStr # bitsStr # _ \<Rightarrow>
          if bitsStr = [] then ip = cidr
          else (case (ipToInt ip, ipToInt rangeStr) of
                  (Some ipInt, Some rangeInt) \<Rightarrow>
                    (let m = cidrMask bitsStr in (ipInt AND m) = (rangeInt AND m))
                | _ \<Rightarrow> ip = cidr)
      | _ \<Rightarrow> ip = cidr)"

section \<open>Configuration (config.js)\<close>

text \<open>
  The settings the modelled functions read, numbers as \<open>parseInt\<close> gives them.
  \<open>encodingDetection\<close>, \<open>backendPortUTF8\<close> and \<open>backendPortCP437\<close> are read from the same
  object by encoding-detector.js and proxy.js; config.js does not set them.
\<close>

record config =
  backendHost :: string
  backendPort :: int
  maxConnections :: int
  blockedCountries :: "string list"
  blockUnknownCountries :: bool
  rateLimitEnabled :: bool
  maxConnectionsPerWindow :: int
  rateLimitWindowMs :: int
  rateLimitBlockDurationMs :: int
  encodingDetection :: bool
  backendPortUTF8 :: int
  backendPortCP437 :: int

section \<open>IP filter (ipfilter.js)\<close>

text \<open>
  The class \<open>IPFilter\<close>: the two sets are lists of their entries (a JavaScript \<open>Set\<close>
  iterates in insertion order), the two \<open>Map\<close>s are partial functions. Times are
  milliseconds as \<open>Date.now()\<close> gives them; one call of a public method reads the clock
  as one value \<open>now\<close>.
\<close>

record blockInfo =
  blockedUntil :: int
  blockReason :: string
  blockedAt :: int

record ipfilter =
  blocklist :: "string list"
  whitelist :: "string list"
  connectionAttempts :: "string \<rightharpoonup> int list"
  blockedIPs :: "string \<rightharpoonup> blockInfo"

text \<open>The object \<open>isIPBlocked\<close> returns, and the one \<open>shouldAllowConnection\<close> returns;
  a field the source leaves out is \<open>None\<close>.\<close>

record blockCheck =
  blocked :: bool
  checkReason :: "string option"
  temporary :: "bool option"

record decision =
  allowed :: bool
  whitelisted :: "bool option"
  reason :: "string option"

text \<open>Decimal rendering of a number inside a template string.\<close>

function showDigits :: "int \<Rightarrow> string" where
  "showDigits i =
     (if i < 10 then [char_of (48 + i)] else showDigits (i div 10) @ [char_of (48 + i mod 10)])"
  by pat_completeness auto
termination
  by (relation "measure nat") auto

declare showDigits.simps [simp del]

definition showInt :: "int \<Rightarrow> string" where
  "showInt i = (if i < 0 then CHR ''-'' # showDigits (- i) else showDigits i)"

definition isIPWhitelisted :: "ipfilter \<Rightarrow> string option \<Rightarrow> bool" where
  "isIPWhitelisted f ipAddress =
     (case ipAddress of
        None \<Rightarrow> False
      | Some ip \<Rightarrow>
          if ip = [] then False
          else if cleanIp ip \<in> set (whitelist f) then True
          else if ip \<in> set (whitelist f) then True
          else list_ex (ipMatchesCIDR (cleanIp ip)) (whitelist f))"

definition isIPInBlocklist :: "ipfilter \<Rightarrow> string option \<Rightarrow> bool" where
  "isIPInBlocklist f ipAddress =
     (case ipAddress of
        None \<Rightarrow> False
      | Some ip \<Rightarrow>
          if ip = [] then False
          else if cleanIp ip \<in> set (blocklist f) then True
          else if ip \<in> set (blocklist f) then True
          else list_ex (ipMatchesCIDR (cleanIp ip)) (blocklist f))"

definition blockIP :: "ipfilter \<Rightarrow> int \<Rightarrow> string \<Rightarrow> int \<Rightarrow> string \<Rightarrow> ipfilter" where
  "blockIP f now ipAddress durationMs rsn =
     f\<lparr>blockedIPs := (blockedIPs f)(cleanIp ipAddress \<mapsto>
          \<lparr>blockedUntil = now + durationMs, blockReason = rsn, blockedAt = now\<rparr>)\<rparr>"

text \<open>
  \<open>recordConnectionAttempt\<close> returns \<open>true\<close> when the limit is exceeded; its other
  returns (\<open>undefined\<close>, \<open>false\<close>) are falsy and are \<open>False\<close> here.
\<close>

definition recordConnectionAttempt ::
    "config \<Rightarrow> ipfilter \<Rightarrow> int \<Rightarrow> string option \<Rightarrow> bool \<times> ipfilter" where
  "recordConnectionAttempt cfg f now ipAddress =
     (if \<not> rateLimitEnabled cfg then (False, f)
      else (case ipAddress of
        None \<Rightarrow> (False, f)
      | Some ip \<Rightarrow>
          if ip = [] then (False, f)
          else
            (let attempts = (case connectionAttempts f (cleanIp ip) of
                               None \<Rightarrow> [] | Some a \<Rightarrow> a) @ [now];
                 windowStart = now - rateLimitWindowMs cfg;
                 recentAttempts = filter (\<lambda>time. time > windowStart) attempts;
                 f1 = f\<lparr>connectionAttempts :=
                         (connectionAttempts f)(cleanIp ip \<mapsto> recentAttempts)\<rparr>
             in if int (length recentAttempts) > maxConnectionsPerWindow cfg
                then (True,
                      blockIP f1 now (cleanIp ip) (rateLimitBlockDurationMs cfg)
                        (''Rate limit exceeded: '' @ showInt (int (length recentAttempts)) @
                         '' connections in '' @ showInt (rateLimitWindowMs cfg) @ ''ms''))
                else (False, f1))))"

definition isIPBlocked :: "ipfilter \<Rightarrow> int \<Rightarrow> string option \<Rightarrow> blockCheck \<times> ipfilter" where
  "isIPBlocked f now ipAddress =
     (case ipAddress of
        None \<Rightarrow> (\<lparr>blocked = False, checkReason = None, temporary = None\<rparr>, f)
      | Some ip \<Rightarrow>
          if ip = [] then (\<lparr>blocked = False, checkReason = None, temporary = None\<rparr>, f)
          else
            (case blockedIPs f (cleanIp ip) of
               Some info \<Rightarrow>
                 if now < blockedUntil info
                 then (\<lparr>blocked = True, checkReason = Some (blockReason info),
                        temporary = Some True\<rparr>, f)
                 else
                   (let f1 = f\<lparr>blockedIPs := (blockedIPs f)(cleanIp ip := None)\<rparr>
                    in if isIPInBlocklist f1 ipAddress
                       then (\<lparr>blocked = True, checkReason = Some ''IP in blocklist'',
                              temporary = Some False\<rparr>, f1)
                       else (\<lparr>blocked = False, checkReason = None, temporary = None\<rparr>, f1))
             | None \<Rightarrow>
                 if isIPInBlocklist f ipAddress
                 then (\<lparr>blocked = True, checkReason = Some ''IP in blocklist'',
                        temporary = Some False\<rparr>, f)
                 else (\<lparr>blocked = False, checkReason = None, temporary = None\<rparr>, f)))"

definition shouldAllowConnection ::
    "config \<Rightarrow> ipfilter \<Rightarrow> int \<Rightarrow> string option \<Rightarrow> decision \<times> ipfilter" where
  "shouldAllowConnection cfg f now ipAddress =
     (if (case ipAddress of None \<Rightarrow> True | Some ip \<Rightarrow> ip = [])
      then (\<lparr>allowed = False, whitelisted = None, reason = Some ''Invalid IP address''\<rparr>, f)
      else if isIPWhitelisted f ipAddress
      then (\<lparr>allowed = True, whitelisted = Some True, reason = None\<rparr>, f)
      else
        (case isIPBlocked f now ipAddress of
           (blockCheck, f1) \<Rightarrow>
             if blocked blockCheck
             then (\<lparr>allowed = False, whitelisted = None, reason = checkReason blockCheck\<rparr>, f1)
             else
               (case recordConnectionAttempt cfg f1 now ipAddress of
                  (rateLimitExceeded, f2) \<Rightarrow>
                    if rateLimitExceeded
                    then (\<lparr>allowed = False, whitelisted = None,
                           reason = Some ''Rate limit exceeded''\<rparr>, f2)
                    else (\<lparr>allowed = True, whitelisted = None, reason = None\<rparr>, f2))))"

text \<open>A sequence of calls, one clock reading each; the decisions in call order.\<close>

fun shouldAllowAll ::
    "config \<Rightarrow> ipfilter \<Rightarrow> (int \<times> string option) list \<Rightarrow> decision list \<times> ipfilter" where
  "shouldAllowAll cfg f [] = ([], f)"
| "shouldAllowAll cfg f ((now, ipAddress) # calls) =
     (case shouldAllowConnection cfg f now ipAddress of
        (d, f1) \<Rightarrow> (case shouldAllowAll cfg f1 calls of (ds, f2) \<Rightarrow> (d # ds, f2)))"

section \<open>Encoding detector (encoding-detector.js)\<close>

text \<open>The environment object is a partial map from variable names to values.\<close>

definition langVars :: "string list" where
  "langVars = [''LANG'', ''LC_ALL'', ''LC_CTYPE'']"

definition detectFromSSHEnvironment :: "(string \<rightharpoonup> string) option \<Rightarrow> string" where
  "detectFromSSHEnvironment env =
     (case env of
        None \<Rightarrow> ''cp437''
      | Some e \<Rightarrow>
          if list_ex (\<lambda>varName.
                case e varName of
                  None \<Rightarrow> False
                | Some v \<Rightarrow>
                    v \<noteq> [] \<and>
                    (includesStr (toUpperCase v) ''UTF-8'' \<or> includesStr (toUpperCase v) ''UTF8''))
              langVars
          then ''utf8'' else ''cp437'')"

definition utf8Terminals :: "string list" where
  "utf8Terminals =
     [''xterm-256color'', ''xterm-color'', ''xterm'', ''screen-256color'', ''screen'',
      ''rxvt-unicode'', ''konsole'', ''gnome'', ''linux'', ''vt220'', ''vt100'']"

definition cp437Terminals :: "string list" where
  "cp437Terminals =
     [''ansi'', ''ansi-bbs'', ''ansi-mono'', ''ansi-color'', ''pcansi'', ''scoansi'']"

definition detectFromTerminalType :: "string option \<Rightarrow> string" where
  "detectFromTerminalType termType =
     (case termType of
        None \<Rightarrow> ''cp437''
      | Some t \<Rightarrow>
          if t = [] then ''cp437''
          else if list_ex (includesStr (toLowerCase t)) utf8Terminals then ''utf8''
          else if list_ex (includesStr (toLowerCase t)) cp437Terminals then ''cp437''
          else ''cp437'')"

definition getBackendPortForEncoding :: "string \<Rightarrow> config \<Rightarrow> int" where
  "getBackendPortForEncoding encoding cfg =
     (if \<not> encodingDetection cfg then backendPort cfg
      else if encoding = ''utf8'' then backendPortUTF8 cfg
      else backendPortCP437 cfg)"

section \<open>GeoIP lookup (geoip.js)\<close>

text \<open>
  The database reader is a function from an address to what \<open>reader.get\<close> does with it:
  it throws, finds no record, or returns a record whose \<open>country\<close> may be missing.
\<close>

record countryRecord =
  iso_code :: "string option"
  names_en :: "string option"

datatype readerResult = Throws | NoRecord | Record "countryRecord option"

record geoip =
  isEnabled :: bool
  reader :: "(string \<Rightarrow> readerResult) option"

record geoInfo =
  geoIp :: string
  countryCode :: "string option"
  countryName :: "string option"

definition lookup :: "geoip \<Rightarrow> string \<Rightarrow> geoInfo option" where
  "lookup g ipAddress =
     (if \<not> isEnabled g then None
      else (case reader g of
        None \<Rightarrow> None
      | Some get \<Rightarrow>
          (case get (cleanIp ipAddress) of
             Throws \<Rightarrow> None
           | NoRecord \<Rightarrow> None
           | Record None \<Rightarrow> None
           | Record (Some country) \<Rightarrow>
               Some \<lparr>geoIp = ipAddress,
                     countryCode = (case iso_code country of
                                      None \<Rightarrow> None
                                    | Some c \<Rightarrow> if c = [] then None else Some c),
                     countryName = names_en country\<rparr>)))"

definition getCountryInfo :: "geoip \<Rightarrow> string \<Rightarrow> geoInfo option" where
  "getCountryInfo g ipAddress = lookup g ipAddress"

definition isCountryBlocked :: "geoip \<Rightarrow> string \<Rightarrow> string list \<Rightarrow> bool" where
  "isCountryBlocked g ipAddress blockedList =
     (if \<not> isEnabled g \<or> blockedList = [] then False
      else (case lookup g ipAddress of
        None \<Rightarrow> False
      | Some info \<Rightarrow>
          (case countryCode info of
             None \<Rightarrow> False
           | Some code \<Rightarrow> if code = [] then False else toUpperCase code \<in> set blockedList)))"

section \<open>TCP proxy connection (proxy.js)\<close>

text \<open>\<open>getGeoIP()\<close> and \<open>getIPFilter()\<close> return \<open>null\<close> before initialisation: \<open>None\<close> here.\<close>

definition shouldBlockConnection :: "config \<Rightarrow> geoip option \<Rightarrow> string \<Rightarrow> bool" where
  "shouldBlockConnection cfg geo ipAddress =
     (case geo of
        None \<Rightarrow> False
      | Some g \<Rightarrow>
          if \<not> isEnabled g then False
          else (case getCountryInfo g ipAddress of
            None \<Rightarrow> blockUnknownCountries cfg
          | Some info \<Rightarrow>
              (case countryCode info of
                 None \<Rightarrow> blockUnknownCountries cfg
               | Some code \<Rightarrow>
                   if code = [] then blockUnknownCountries cfg
                   else if blockedCountries cfg \<noteq> []
                   then toUpperCase code \<in> set (blockedCountries cfg)
                   else False)))"

text \<open>
  What \<open>ProxyConnection.connect\<close> does with the client socket: it ends it (no address, IP
  filter, country filter) or dials the backend on a host and port.
\<close>

datatype connectOutcome =
    RejectedNoAddress
  | RejectedByIPFilter "string option"
  | RejectedByCountry
  | Dialed string int

definition detectedEncoding :: string where
  "detectedEncoding = ''cp437''"

definition connect ::
    "config \<Rightarrow> ipfilter option \<Rightarrow> geoip option \<Rightarrow> int \<Rightarrow> string option \<Rightarrow> string \<Rightarrow> int
       \<Rightarrow> connectOutcome \<times> ipfilter option" where
  "connect cfg ipFilter geo now clientIp bHost bPort =
     (case clientIp of
        None \<Rightarrow> (RejectedNoAddress, ipFilter)
      | Some a \<Rightarrow>
          if a = [] then (RejectedNoAddress, ipFilter)
          else
            (let (filterResult, ipFilter1) =
                   (case ipFilter of
                      None \<Rightarrow> (\<lparr>allowed = True, whitelisted = None, reason = None\<rparr>, None)
                    | Some f \<Rightarrow>
                        (case shouldAllowConnection cfg f now clientIp of
                           (r, f1) \<Rightarrow> (r, Some f1)));
                 isWhitelisted = (whitelisted filterResult = Some True)
             in if \<not> allowed filterResult
                then (RejectedByIPFilter (reason filterResult), ipFilter1)
                else if \<not> isWhitelisted \<and> shouldBlockConnection cfg geo a
                then (RejectedByCountry, ipFilter1)
                else
                  (Dialed bHost
                     (if encodingDetection cfg
                      then getBackendPortForEncoding detectedEncoding cfg
                      else bPort),
                   ipFilter1)))"

section \<open>Supervisor (server.js)\<close>

text \<open>
  \<open>BBSFirewall\<close> with the client sockets that are open. A socket is identified by a
  number; for each, the state keeps whether \<open>handleNewConnection\<close> registered the
  \<open>close\<close> handler that decrements the counter, and what was done with the socket.
\<close>

datatype handling = RejectedMaxConnections | Handled connectOutcome

record clientSocket =
  closeHandler :: bool
  handling :: handling

record firewall =
  activeConnections :: int
  ipFilter :: "ipfilter option"
  sockets :: "nat \<rightharpoonup> clientSocket"

definition handleNewConnection ::
    "config \<Rightarrow> geoip option \<Rightarrow> int \<Rightarrow> firewall \<Rightarrow> nat \<Rightarrow> string option \<Rightarrow> firewall" where
  "handleNewConnection cfg geo now fw sock remoteAddress =
     (if activeConnections fw \<ge> maxConnections cfg
      then fw\<lparr>sockets := (sockets fw)(sock \<mapsto>
                \<lparr>closeHandler = False, handling = RejectedMaxConnections\<rparr>)\<rparr>
      else
        (let fw1 = fw\<lparr>activeConnections := activeConnections fw + 1\<rparr>;
             (outcome, ipFilter1) =
               connect cfg (ipFilter fw1) geo now remoteAddress (backendHost cfg) (backendPort cfg)
         in fw1\<lparr>ipFilter := ipFilter1,
                sockets := (sockets fw1)(sock \<mapsto>
                  \<lparr>closeHandler = True, handling = Handled outcome\<rparr>)\<rparr>))"

text \<open>The \<open>close\<close> event of a client socket: it fires once, for an open socket.\<close>

definition socketClosed :: "firewall \<Rightarrow> nat \<Rightarrow> firewall" where
  "socketClosed fw sock =
     (case sockets fw sock of
        None \<Rightarrow> fw
      | Some cs \<Rightarrow>
          (if closeHandler cs then fw\<lparr>activeConnections := activeConnections fw - 1\<rparr> else fw)
            \<lparr>sockets := (sockets fw)(sock := None)\<rparr>)"

definition started :: "ipfilter option \<Rightarrow> firewall" where
  "started f = \<lparr>activeConnections = 0, ipFilter = f, sockets = Map.empty\<rparr>"

definition counted :: "firewall \<Rightarrow> nat set" where
  "counted fw = {sock. \<exists>cs. sockets fw sock = Some cs \<and> closeHandler cs}"

section \<open>SSH front end (ssh.js)\<close>

text \<open>
  The connection handler of the SSH server: \<open>clientIP\<close> is the socket's remote address
  or \<open>'unknown'\<close>; the client is ended when the IP filter denies it, and goes on to
  authentication otherwise (\<open>True\<close>). The handler reads and writes nothing of the
  supervisor but the shared IP filter.
\<close>

definition sshClientConnected ::
    "config \<Rightarrow> firewall \<Rightarrow> int \<Rightarrow> string option \<Rightarrow> bool \<times> firewall" where
  "sshClientConnected cfg fw now remoteAddress =
     (let clientIP = (case remoteAddress of
                        None \<Rightarrow> ''unknown''
                      | Some a \<Rightarrow> if a = [] then ''unknown'' else a)
      in case ipFilter fw of
           None \<Rightarrow> (True, fw)
         | Some f \<Rightarrow>
             (case shouldAllowConnection cfg f now (Some clientIP) of
                (accessCheck, f1) \<Rightarrow> (allowed accessCheck, fw\<lparr>ipFilter := Some f1\<rparr>)))"

text \<open>
  The requests of a session channel and what the handlers registered on the session do
  with each. The handlers keep no state: the \<open>pty\<close> handler logs the terminal type and
  accepts, and no handler is registered for \<open>env\<close>.
\<close>

datatype sshRequest = Pty string | WindowChange | Shell | Exec string | Env string string

datatype sshResponse = Accepted | Ignored | Rejected | Unhandled | ShellStarted string int

fun sessionRequest :: "config \<Rightarrow> sshRequest \<Rightarrow> sshResponse" where
  "sessionRequest cfg (Pty term) = Accepted"
| "sessionRequest cfg WindowChange = Ignored"
| "sessionRequest cfg Shell = ShellStarted (backendHost cfg) (backendPort cfg)"
| "sessionRequest cfg (Exec command) = Rejected"
| "sessionRequest cfg (Env name val) = Unhandled"

text \<open>
  The shell bridge. An endpoint is the SSH stream or the backend socket: \<open>received\<close> is
  what has been written to it, in order. \<open>write\<close> returns \<open>false\<close> when the endpoint's
  buffer is full; that answer is the argument \<open>absorbed\<close> of the data handlers.
\<close>

record endpoint =
  writable :: bool
  destroyed :: bool
  paused :: bool
  received :: "8 word list"

record bridge =
  stream :: endpoint
  backendSocket :: endpoint
  bytesFromClient :: int
  bytesFromBackend :: int
  streamResumeOnDrain :: nat
  backendResumeOnDrain :: nat

definition onStreamData :: "bridge \<Rightarrow> 8 word list \<Rightarrow> bool \<Rightarrow> bridge" where
  "onStreamData b data absorbed =
     (let b1 = b\<lparr>bytesFromClient := bytesFromClient b + int (length data)\<rparr>
      in if \<not> writable (backendSocket b1) \<or> destroyed (backendSocket b1) then b1
         else
           (let b2 = b1\<lparr>backendSocket :=
                        (backendSocket b1)\<lparr>received := received (backendSocket b1) @ data\<rparr>\<rparr>
            in if \<not> absorbed
               then b2\<lparr>stream := (stream b2)\<lparr>paused := True\<rparr>,
                       streamResumeOnDrain := streamResumeOnDrain b2 + 1\<rparr>
               else b2))"

definition onBackendData :: "bridge \<Rightarrow> 8 word list \<Rightarrow> bool \<Rightarrow> bridge" where
  "onBackendData b data absorbed =
     (let b1 = b\<lparr>bytesFromBackend := bytesFromBackend b + int (length data)\<rparr>
      in if \<not> writable (stream b1) \<or> destroyed (stream b1) then b1
         else
           (let b2 = b1\<lparr>stream := (stream b1)\<lparr>received := received (stream b1) @ data\<rparr>\<rparr>
            in if \<not> absorbed
               then b2\<lparr>backendSocket := (backendSocket b2)\<lparr>paused := True\<rparr>,
                       backendResumeOnDrain := backendResumeOnDrain b2 + 1\<rparr>
               else b2))"

section \<open>Events of the running firewall\<close>

text \<open>
  What happens to a started firewall: a connection arrives at the TCP listener on a new
  socket (a socket that is open cannot arrive again), an open client socket closes, or a
  client connects to the SSH listener. The IP filter is the one shared instance.
\<close>

datatype event =
    Connection nat "string option" int
  | Closed nat
  | SshConnection "string option" int

fun step :: "config \<Rightarrow> geoip option \<Rightarrow> firewall \<Rightarrow> event \<Rightarrow> firewall" where
  "step cfg geo fw (Connection sock remoteAddress now) =
     (if sockets fw sock = None then handleNewConnection cfg geo now fw sock remoteAddress
      else fw)"
| "step cfg geo fw (Closed sock) = socketClosed fw sock"
| "step cfg geo fw (SshConnection remoteAddress now) =
     snd (sshClientConnected cfg fw now remoteAddress)"

definition run :: "config \<Rightarrow> geoip option \<Rightarrow> firewall \<Rightarrow> event list \<Rightarrow> firewall" where
  "run cfg geo fw evs = foldl (step cfg geo) fw evs"

section \<open>Example configuration and states\<close>

definition exampleConfig :: config where
  "exampleConfig =
     \<lparr>backendHost = ''127.0.0.1'', backendPort = 2323, maxConnections = 100,
      blockedCountries = [''CN''], blockUnknownCountries = True, rateLimitEnabled = True,
      maxConnectionsPerWindow = 3, rateLimitWindowMs = 60000,
      rateLimitBlockDurationMs = 10000, encodingDetection = True,
      backendPortUTF8 = 2324, backendPortCP437 = 2325\<rparr>"

definition emptyFilter :: ipfilter where
  "emptyFilter =
     \<lparr>blocklist = [], whitelist = [], connectionAttempts = Map.empty, blockedIPs = Map.empty\<rparr>"


definition blockedTwice :: ipfilter where
  "blockedTwice =
     \<lparr>blocklist = [''198.51.100.9''], whitelist = [], connectionAttempts = Map.empty,
      blockedIPs = [''198.51.100.9'' \<mapsto>
        \<lparr>blockedUntil = 13000,
         blockReason = ''Rate limit exceeded: 4 connections in 60000ms'',
         blockedAt = 3000\<rparr>]\<rparr>"

definition exampleGeo :: geoip where
  "exampleGeo =
     \<lparr>isEnabled = True,
      reader = Some (\<lambda>a. if a = ''203.0.113.7''
                          then Record (Some \<lparr>iso_code = Some ''cn'', names_en = Some ''China''\<rparr>)
                          else NoRecord)\<rparr>"

definition exampleBridge :: bridge where
  "exampleBridge =
     \<lparr>stream = \<lparr>writable = True, destroyed = False, paused = False, received = []\<rparr>,
      backendSocket = \<lparr>writable = False, destroyed = True, paused = False, received = []\<rparr>,
      bytesFromClient = 0, bytesFromBackend = 0,
      streamResumeOnDrain = 0, backendResumeOnDrain = 0\<rparr>"

text \<open>The invariant of the connection counter: it is the number of open client sockets
  that carry the decrementing \<open>close\<close> handler.\<close>

definition countInv :: "firewall \<Rightarrow> bool" where
  "countInv fw =
     (finite (dom (sockets fw)) \<and> activeConnections fw = int (card (counted fw)))"

definition blocklistedFirewall :: firewall where
  "blocklistedFirewall = started (Some (emptyFilter\<lparr>blocklist := [''203.0.113.7'']\<rparr>))"







text \<open>
  The client sockets that are open after a sequence of events, read off the events alone:
  a connection opens its socket and a close event closes it.
\<close>

definition openStep :: "nat set \<Rightarrow> event \<Rightarrow> nat set" where
  "openStep S ev =
     (case ev of
        Connection sock remoteAddress now \<Rightarrow> insert sock S
      | Closed sock \<Rightarrow> S - {sock}
      | SshConnection remoteAddress now \<Rightarrow> S)"

definition openAfter :: "event list \<Rightarrow> nat set" where
  "openAfter evs = foldl openStep {} evs"

definition singleSlotConfig :: config where
  "singleSlotConfig = exampleConfig\<lparr>maxConnections := 1\<rparr>"

definition fullFirewall :: firewall where
  "fullFirewall =
     run singleSlotConfig None (started (Some emptyFilter))
       [Connection 1 (Some ''203.0.113.7'') 0]"

section \<open>Address normalisation\<close>

lemma hasMappedPrefix_length: "hasMappedPrefix s \<Longrightarrow> 7 \<le> length s"
proof -
  assume "hasMappedPrefix s"
  then have "length (toLowerCase (take 7 s)) = length ''::ffff:''"
    by (simp only: hasMappedPrefix_def)
  then show ?thesis by (simp add: toLowerCase_def)
qed

text \<open>
  C8, as stated: stripping the \<open>::ffff:\<close> prefix twice gives the same as stripping it
  once, for every string. It fails: the replacement removes one prefix only, so a string
  that starts with two of them loses the second one on the second pass.
\<close>

theorem cleanIp_not_idempotent_counterexample:
  "cleanIp ''::ffff:::ffff:1.2.3.4'' = ''::ffff:1.2.3.4''
   \<and> cleanIp (cleanIp ''::ffff:::ffff:1.2.3.4'') = ''1.2.3.4''
   \<and> cleanIp (cleanIp ''::ffff:::ffff:1.2.3.4'') \<noteq> cleanIp ''::ffff:::ffff:1.2.3.4''"
  by (simp add: cleanIp_def hasMappedPrefix_def toLowerCase_def toLowerChar_def char_of_eq_iff)

text \<open>
  C8, amended: normalising an already normalised string changes nothing exactly when the
  normalised string does not itself start with \<open>::ffff:\<close> (in any case); so
  normalisation is idempotent on every string that does not start with two such prefixes.
\<close>

theorem cleanIp_idempotent_iff:
  "(cleanIp (cleanIp x) = cleanIp x) = (\<not> hasMappedPrefix (cleanIp x))"
proof (cases "hasMappedPrefix (cleanIp x)")
  case True
  then have "length (cleanIp (cleanIp x)) < length (cleanIp x)"
    using hasMappedPrefix_length [OF True] by (simp add: cleanIp_def)
  with True show ?thesis by auto
next
  case False
  then show ?thesis by (simp add: cleanIp_def)
qed

theorem cleanIp_idempotent_iff_witness:
  "cleanIp (cleanIp ''::FFFF:203.0.113.7'') = cleanIp ''::FFFF:203.0.113.7''
   \<and> cleanIp ''::FFFF:203.0.113.7'' = ''203.0.113.7''"
  using cleanIp_idempotent_iff [of "''::FFFF:203.0.113.7''"]
  by (simp add: cleanIp_def hasMappedPrefix_def toLowerCase_def toLowerChar_def char_of_eq_iff)

section \<open>Admission by the IP filter\<close>

lemma isIPInBlocklist_blockedIPs_update [simp]:
  "isIPInBlocklist (f\<lparr>blockedIPs := b\<rparr>) ipAddress = isIPInBlocklist f ipAddress"
  by (cases ipAddress) (simp_all add: isIPInBlocklist_def)

lemma isIPInBlocklist_connectionAttempts_update [simp]:
  "isIPInBlocklist (f\<lparr>connectionAttempts := c\<rparr>) ipAddress = isIPInBlocklist f ipAddress"
  by (cases ipAddress) (simp_all add: isIPInBlocklist_def)

lemma isIPWhitelisted_blockedIPs_update [simp]:
  "isIPWhitelisted (f\<lparr>blockedIPs := b\<rparr>) ipAddress = isIPWhitelisted f ipAddress"
  by (cases ipAddress) (simp_all add: isIPWhitelisted_def)

lemma isIPWhitelisted_connectionAttempts_update [simp]:
  "isIPWhitelisted (f\<lparr>connectionAttempts := c\<rparr>) ipAddress = isIPWhitelisted f ipAddress"
  by (cases ipAddress) (simp_all add: isIPWhitelisted_def)

text \<open>
  C2: for a whitelisted address, \<open>shouldAllowConnection\<close> returns
  \<open>{ allowed: true, whitelisted: true }\<close> and the filter it leaves behind is the filter
  it was given: no timestamp is appended to \<open>connectionAttempts\<close> and \<open>blockedIPs\<close> is
  untouched.
\<close>

theorem whitelisted_bypass:
  assumes "isIPWhitelisted f ipAddress"
  shows "shouldAllowConnection cfg f now ipAddress =
           (\<lparr>allowed = True, whitelisted = Some True, reason = None\<rparr>, f)"
proof -
  from assms have "\<not> (case ipAddress of None \<Rightarrow> True | Some a \<Rightarrow> a = [])"
    by (auto simp: isIPWhitelisted_def split: option.splits if_splits)
  with assms show ?thesis
    by (simp add: shouldAllowConnection_def)
qed

theorem whitelisted_bypass_witness:
  "isIPWhitelisted (blockedTwice\<lparr>whitelist := [''198.51.100.0/24'']\<rparr>) (Some ''198.51.100.9'')
   \<and> shouldAllowConnection exampleConfig (blockedTwice\<lparr>whitelist := [''198.51.100.0/24'']\<rparr>)
        4000 (Some ''198.51.100.9'') =
       (\<lparr>allowed = True, whitelisted = Some True, reason = None\<rparr>,
        blockedTwice\<lparr>whitelist := [''198.51.100.0/24'']\<rparr>)"
proof -
  have w: "isIPWhitelisted (blockedTwice\<lparr>whitelist := [''198.51.100.0/24'']\<rparr>)
             (Some ''198.51.100.9'')"
    by code_simp
  show ?thesis
    using w whitelisted_bypass [OF w, of exampleConfig 4000] by simp
qed

text \<open>
  C6, as stated: an address in the blocklist is answered with the reason
  \<open>IP in blocklist\<close> even when an active temporary block for it exists. It fails:
  \<open>isIPBlocked\<close> looks at the temporary blocks first, and an active one answers with its
  stored reason.
\<close>

theorem blocklist_reason_counterexample:
  "isIPInBlocklist blockedTwice (Some ''198.51.100.9'')
   \<and> \<not> isIPWhitelisted blockedTwice (Some ''198.51.100.9'')
   \<and> fst (shouldAllowConnection exampleConfig blockedTwice 4000 (Some ''198.51.100.9'')) =
       \<lparr>allowed = False, whitelisted = None,
        reason = Some ''Rate limit exceeded: 4 connections in 60000ms''\<rparr>"
  by (simp add: shouldAllowConnection_def isIPBlocked_def isIPInBlocklist_def
      isIPWhitelisted_def blockedTwice_def cleanIp_def hasMappedPrefix_def toLowerCase_def
      toLowerChar_def)

text \<open>
  Such a state arises from calls of \<open>shouldAllowConnection\<close> alone when the blocklist
  holds the IPv4-mapped form of an address and the address first connects in its plain
  form: the plain form is rate limited and blocked temporarily under the normalised key,
  and the mapped form, which is in the blocklist, is then answered with the stored
  reason of the temporary block.
\<close>

lemma blocklist_reason_reachable:
  "isIPInBlocklist (emptyFilter\<lparr>blocklist := [''::ffff:198.51.100.9'']\<rparr>)
     (Some ''::ffff:198.51.100.9'')
   \<and> fst (shouldAllowAll exampleConfig
        (emptyFilter\<lparr>blocklist := [''::ffff:198.51.100.9'']\<rparr>)
        [(0, Some ''198.51.100.9''), (1000, Some ''198.51.100.9''),
         (2000, Some ''198.51.100.9''), (3000, Some ''198.51.100.9''),
         (4000, Some ''::ffff:198.51.100.9'')]) =
     [\<lparr>allowed = True, whitelisted = None, reason = None\<rparr>,
      \<lparr>allowed = True, whitelisted = None, reason = None\<rparr>,
      \<lparr>allowed = True, whitelisted = None, reason = None\<rparr>,
      \<lparr>allowed = False, whitelisted = None, reason = Some ''Rate limit exceeded''\<rparr>,
      \<lparr>allowed = False, whitelisted = None,
       reason = Some ''Rate limit exceeded: 4 connections in 60000ms''\<rparr>]"
  by code_simp

text \<open>
  C6, amended: \<open>shouldAllowConnection\<close> checks the temporary blocks before the permanent
  blocklist. An address in the blocklist that is not whitelisted is always denied; the
  reason is the stored reason of its temporary block when one is still active at the time
  of the call, and \<open>IP in blocklist\<close> otherwise.
\<close>

theorem blocklisted_denied:
  assumes "isIPInBlocklist f (Some a)" and "\<not> isIPWhitelisted f (Some a)"
  shows "fst (shouldAllowConnection cfg f now (Some a)) =
           \<lparr>allowed = False, whitelisted = None,
            reason = Some (case blockedIPs f (cleanIp a) of
                             None \<Rightarrow> ''IP in blocklist''
                           | Some info \<Rightarrow>
                               if now < blockedUntil info then blockReason info
                               else ''IP in blocklist'')\<rparr>"
proof -
  from assms(1) have ne: "a \<noteq> []"
    by (auto simp: isIPInBlocklist_def split: if_splits)
  show ?thesis
    using assms ne
    by (simp add: shouldAllowConnection_def isIPBlocked_def Let_def split: option.splits)
qed

theorem blocklisted_denied_witness:
  "isIPInBlocklist blockedTwice (Some ''198.51.100.9'')
   \<and> \<not> isIPWhitelisted blockedTwice (Some ''198.51.100.9'')
   \<and> fst (shouldAllowConnection exampleConfig blockedTwice 13000 (Some ''198.51.100.9'')) =
       \<lparr>allowed = False, whitelisted = None, reason = Some ''IP in blocklist''\<rparr>"
proof -
  have b: "isIPInBlocklist blockedTwice (Some ''198.51.100.9'')"
    by (simp add: isIPInBlocklist_def blockedTwice_def cleanIp_def hasMappedPrefix_def
        toLowerCase_def toLowerChar_def)
  have w: "\<not> isIPWhitelisted blockedTwice (Some ''198.51.100.9'')"
    by (simp add: isIPWhitelisted_def blockedTwice_def)
  have k: "cleanIp ''198.51.100.9'' = ''198.51.100.9''"
    by (simp add: cleanIp_def hasMappedPrefix_def toLowerCase_def toLowerChar_def)
  show ?thesis
    using b w blocklisted_denied [OF b w, of exampleConfig 13000]
    by (simp add: k blockedTwice_def)
qed

section \<open>Country filter\<close>

lemma lookup_countryCode_nonempty:
  "lookup g a = Some info \<Longrightarrow> countryCode info \<noteq> Some []"
  by (auto simp: lookup_def split: if_splits option.splits readerResult.splits)

text \<open>
  C9: the country decision of the admission pipeline, \<open>shouldBlockConnection\<close>. Without
  a loaded database (no GeoIP object, or one that is not enabled) it is false for every
  address. With the database loaded and no country determined for the address (the lookup
  gives nothing, or a record without country code) it is the \<open>blockUnknownCountries\<close>
  flag. Otherwise it is true exactly when the upper-cased country code is one of the
  configured blocked countries.
\<close>

theorem geo_block_decision:
  "shouldBlockConnection cfg None a = False
   \<and> (\<not> isEnabled g \<longrightarrow> shouldBlockConnection cfg (Some g) a = False)
   \<and> (isEnabled g \<and> (lookup g a = None \<or> (\<exists>info. lookup g a = Some info \<and> countryCode info = None))
        \<longrightarrow> shouldBlockConnection cfg (Some g) a = blockUnknownCountries cfg)
   \<and> (isEnabled g \<and> lookup g a = Some info \<and> countryCode info = Some code
        \<longrightarrow> shouldBlockConnection cfg (Some g) a = (toUpperCase code \<in> set (blockedCountries cfg)))"
proof -
  have a: "shouldBlockConnection cfg None a = False"
    by (simp add: shouldBlockConnection_def)
  have b: "\<not> isEnabled g \<longrightarrow> shouldBlockConnection cfg (Some g) a = False"
    by (simp add: shouldBlockConnection_def)
  have c: "isEnabled g \<and> (lookup g a = None \<or> (\<exists>info. lookup g a = Some info \<and> countryCode info = None))
        \<longrightarrow> shouldBlockConnection cfg (Some g) a = blockUnknownCountries cfg"
    by (auto simp: shouldBlockConnection_def getCountryInfo_def)
  have d: "isEnabled g \<and> lookup g a = Some info \<and> countryCode info = Some code
        \<longrightarrow> shouldBlockConnection cfg (Some g) a = (toUpperCase code \<in> set (blockedCountries cfg))"
  proof (intro impI, elim conjE)
    assume e: "isEnabled g" and l: "lookup g a = Some info" and cc: "countryCode info = Some code"
    from lookup_countryCode_nonempty [OF l] cc have "code \<noteq> []" by auto
    with e l cc show "shouldBlockConnection cfg (Some g) a = (toUpperCase code \<in> set (blockedCountries cfg))"
      by (simp add: shouldBlockConnection_def getCountryInfo_def)
  qed
  from a b c d show ?thesis by blast
qed

theorem geo_block_decision_witness:
  "\<not> shouldBlockConnection exampleConfig (Some (exampleGeo\<lparr>isEnabled := False\<rparr>)) ''203.0.113.7''
   \<and> lookup exampleGeo ''192.0.2.1'' = None
   \<and> shouldBlockConnection exampleConfig (Some exampleGeo) ''192.0.2.1''
   \<and> lookup exampleGeo ''::ffff:203.0.113.7'' =
        Some \<lparr>geoIp = ''::ffff:203.0.113.7'', countryCode = Some ''cn'', countryName = Some ''China''\<rparr>
   \<and> shouldBlockConnection exampleConfig (Some exampleGeo) ''::ffff:203.0.113.7''"
proof -
  have k1: "cleanIp ''192.0.2.1'' = ''192.0.2.1''"
    by (simp add: cleanIp_def hasMappedPrefix_def toLowerCase_def toLowerChar_def)
  have k2: "cleanIp ''::ffff:203.0.113.7'' = ''203.0.113.7''"
    by (simp add: cleanIp_def hasMappedPrefix_def toLowerCase_def toLowerChar_def)
  have l1: "lookup exampleGeo ''192.0.2.1'' = None"
    by (simp add: lookup_def exampleGeo_def k1)
  have l2: "lookup exampleGeo ''::ffff:203.0.113.7'' =
        Some \<lparr>geoIp = ''::ffff:203.0.113.7'', countryCode = Some ''cn'', countryName = Some ''China''\<rparr>"
    by (simp add: lookup_def exampleGeo_def k2)
  have u: "toUpperCase ''cn'' = ''CN''"
    by (simp add: toUpperCase_def toUpperChar_def char_of_eq_iff)
  have e: "isEnabled exampleGeo" by (simp add: exampleGeo_def)
  show ?thesis
    using geo_block_decision [of exampleConfig "''203.0.113.7''" "exampleGeo\<lparr>isEnabled := False\<rparr>"]
      geo_block_decision [of exampleConfig "''192.0.2.1''" exampleGeo]
      geo_block_decision [of exampleConfig "''::ffff:203.0.113.7''" exampleGeo
        "\<lparr>geoIp = ''::ffff:203.0.113.7'', countryCode = Some ''cn'', countryName = Some ''China''\<rparr>" "''cn''"]
      l1 l2 e u
    by (simp add: exampleConfig_def)
qed

text \<open>
  \<open>GeoIPLookup.isCountryBlocked\<close>, which the admission pipeline does not call, has no
  flag for unknown countries: it answers false when no country is determined.
\<close>

lemma isCountryBlocked_unknown:
  "lookup g a = None \<Longrightarrow> isCountryBlocked g a blockedList = False"
  by (simp add: isCountryBlocked_def)

section \<open>SSH front end\<close>

text \<open>
  C10: a chunk that arrives from one endpoint while the other is not writable or is
  destroyed is added to that direction's byte counter and nothing else changes: it is
  not appended to what the other endpoint received and nothing is kept for later. The
  counter can therefore exceed the number of bytes delivered.
\<close>

theorem dropped_chunk_counted:
  "(\<not> writable (backendSocket b) \<or> destroyed (backendSocket b)
      \<longrightarrow> onStreamData b data absorbed
            = b\<lparr>bytesFromClient := bytesFromClient b + int (length data)\<rparr>)
   \<and> (\<not> writable (stream b) \<or> destroyed (stream b)
      \<longrightarrow> onBackendData b data absorbed
            = b\<lparr>bytesFromBackend := bytesFromBackend b + int (length data)\<rparr>)"
  by (simp add: onStreamData_def onBackendData_def Let_def)

theorem dropped_chunk_counted_witness:
  "destroyed (backendSocket exampleBridge)
   \<and> bytesFromClient (onStreamData exampleBridge [72, 69, 76, 76, 79] True) = 5
   \<and> received (backendSocket (onStreamData exampleBridge [72, 69, 76, 76, 79] True)) = []
   \<and> \<not> writable (stream (exampleBridge\<lparr>stream := (stream exampleBridge)\<lparr>writable := False\<rparr>\<rparr>))
   \<and> bytesFromBackend
        (onBackendData (exampleBridge\<lparr>stream := (stream exampleBridge)\<lparr>writable := False\<rparr>\<rparr>)
           [72, 73] True) = 2
   \<and> received (stream
        (onBackendData (exampleBridge\<lparr>stream := (stream exampleBridge)\<lparr>writable := False\<rparr>\<rparr>)
           [72, 73] True)) = []"
  using dropped_chunk_counted [of exampleBridge "[72, 69, 76, 76, 79]" True]
    dropped_chunk_counted
      [of "exampleBridge\<lparr>stream := (stream exampleBridge)\<lparr>writable := False\<rparr>\<rparr>" "[72, 73]" True]
  by (simp add: exampleBridge_def)

text \<open>
  C3, as stated: with UTF-8 hints from the SSH client the detector yields \<open>utf8\<close> and the
  shell channel's backend connection is dialed on \<open>backendPortUTF8\<close>. The first half
  holds; the second fails: for a session that sends \<open>LANG=en_US.UTF-8\<close>, requests a PTY
  with \<open>TERM=xterm-256color\<close> and then a shell, the handler dials the default port 2323,
  not the UTF-8 port 2324.
\<close>

theorem ssh_shell_port_counterexample:
  "detectFromSSHEnvironment (Some [''LANG'' \<mapsto> ''en_US.UTF-8'']) = ''utf8''
   \<and> detectFromTerminalType (Some ''xterm-256color'') = ''utf8''
   \<and> encodingDetection exampleConfig
   \<and> backendPortUTF8 exampleConfig = 2324
   \<and> map (sessionRequest exampleConfig)
        [Env ''LANG'' ''en_US.UTF-8'', Pty ''xterm-256color'', Shell] =
       [Unhandled, Accepted, ShellStarted ''127.0.0.1'' 2323]"
  by code_simp

text \<open>
  C3, amended: for UTF-8 hints the detectors answer \<open>utf8\<close> (an environment in which
  \<open>LANG\<close>, \<open>LC_ALL\<close> or \<open>LC_CTYPE\<close> contains \<open>UTF-8\<close> or \<open>UTF8\<close> in any case; a terminal
  type that contains one of the known UTF-8 terminal names), and
  \<open>getBackendPortForEncoding\<close> maps \<open>utf8\<close> to \<open>backendPortUTF8\<close> when encoding detection
  is enabled. The SSH shell handler does not consult the detector: it dials
  \<open>config.backendPort\<close>, whatever hints the client presented.
\<close>

theorem utf8_hints_detected:
  "((\<exists>v \<in> set langVars. \<exists>x. env v = Some x \<and>
        (includesStr (toUpperCase x) ''UTF-8'' \<or> includesStr (toUpperCase x) ''UTF8''))
      \<longrightarrow> detectFromSSHEnvironment (Some env) = ''utf8'')
   \<and> ((\<exists>u \<in> set utf8Terminals. includesStr (toLowerCase t) u)
      \<longrightarrow> detectFromTerminalType (Some t) = ''utf8'')
   \<and> getBackendPortForEncoding ''utf8'' cfg =
       (if encodingDetection cfg then backendPortUTF8 cfg else backendPort cfg)
   \<and> sessionRequest cfg Shell = ShellStarted (backendHost cfg) (backendPort cfg)"
proof -
  have ne: "\<And>s p. includesStr s p \<Longrightarrow> p \<noteq> [] \<Longrightarrow> s \<noteq> []"
    by (case_tac s) auto
  have a: "(\<exists>v \<in> set langVars. \<exists>x. env v = Some x \<and>
        (includesStr (toUpperCase x) ''UTF-8'' \<or> includesStr (toUpperCase x) ''UTF8''))
      \<longrightarrow> detectFromSSHEnvironment (Some env) = ''utf8''"
  proof
    assume "\<exists>v \<in> set langVars. \<exists>x. env v = Some x \<and>
        (includesStr (toUpperCase x) ''UTF-8'' \<or> includesStr (toUpperCase x) ''UTF8'')"
    then obtain v x where v: "v \<in> set langVars" and x: "env v = Some x"
      and i: "includesStr (toUpperCase x) ''UTF-8'' \<or> includesStr (toUpperCase x) ''UTF8''"
      by blast
    from i have "toUpperCase x \<noteq> []" using ne by blast
    then have "x \<noteq> []" by (auto simp: toUpperCase_def)
    with v x i have "list_ex (\<lambda>varName.
                case env varName of
                  None \<Rightarrow> False
                | Some v \<Rightarrow>
                    v \<noteq> [] \<and>
                    (includesStr (toUpperCase v) ''UTF-8'' \<or> includesStr (toUpperCase v) ''UTF8''))
              langVars"
      unfolding list_ex_iff by (intro bexI [of _ v]) auto
    then show "detectFromSSHEnvironment (Some env) = ''utf8''"
      by (simp add: detectFromSSHEnvironment_def)
  qed
  have b: "(\<exists>u \<in> set utf8Terminals. includesStr (toLowerCase t) u)
      \<longrightarrow> detectFromTerminalType (Some t) = ''utf8''"
  proof
    assume h: "\<exists>u \<in> set utf8Terminals. includesStr (toLowerCase t) u"
    then obtain u where u: "u \<in> set utf8Terminals" and i: "includesStr (toLowerCase t) u"
      by blast
    from u have "u \<noteq> []" by (auto simp: utf8Terminals_def)
    with i have "toLowerCase t \<noteq> []" using ne by blast
    then have "t \<noteq> []" by (auto simp: toLowerCase_def)
    with h show "detectFromTerminalType (Some t) = ''utf8''"
      by (simp add: detectFromTerminalType_def list_ex_iff)
  qed
  have c: "getBackendPortForEncoding ''utf8'' cfg =
       (if encodingDetection cfg then backendPortUTF8 cfg else backendPort cfg)"
    by (simp add: getBackendPortForEncoding_def)
  from a b c show ?thesis by simp
qed

theorem utf8_hints_detected_witness:
  "detectFromSSHEnvironment (Some [''LC_ALL'' \<mapsto> ''C.utf8'']) = ''utf8''
   \<and> detectFromTerminalType (Some ''XTerm'') = ''utf8''
   \<and> getBackendPortForEncoding ''utf8'' exampleConfig = 2324
   \<and> sessionRequest exampleConfig Shell = ShellStarted ''127.0.0.1'' 2323"
proof -
  have h1: "\<exists>v \<in> set langVars. \<exists>x. [''LC_ALL'' \<mapsto> ''C.utf8''] v = Some x \<and>
        (includesStr (toUpperCase x) ''UTF-8'' \<or> includesStr (toUpperCase x) ''UTF8'')"
    by (rule bexI [of _ "''LC_ALL''"])
       (simp_all add: langVars_def toUpperCase_def toUpperChar_def char_of_eq_iff)
  have h2: "\<exists>u \<in> set utf8Terminals. includesStr (toLowerCase ''XTerm'') u"
    by (rule bexI [of _ "''xterm''"])
       (simp_all add: utf8Terminals_def toLowerCase_def toLowerChar_def char_of_eq_iff)
  show ?thesis
    using h1 h2 utf8_hints_detected [of "[''LC_ALL'' \<mapsto> ''C.utf8'']" "''XTerm''" exampleConfig]
    by (simp add: exampleConfig_def)
qed

section \<open>The connection counter\<close>

lemma counted_subset_dom: "counted fw \<subseteq> dom (sockets fw)"
  by (auto simp: counted_def)

lemma handleNewConnection_at_cap:
  "activeConnections fw \<ge> maxConnections cfg \<Longrightarrow>
   handleNewConnection cfg geo now fw sock ra =
     fw\<lparr>sockets := (sockets fw)(sock \<mapsto>
          \<lparr>closeHandler = False, handling = RejectedMaxConnections\<rparr>)\<rparr>"
  by (simp add: handleNewConnection_def)

lemma handleNewConnection_below_cap:
  "activeConnections fw < maxConnections cfg \<Longrightarrow>
   \<exists>outcome f1. handleNewConnection cfg geo now fw sock ra =
     fw\<lparr>activeConnections := activeConnections fw + 1, ipFilter := f1,
        sockets := (sockets fw)(sock \<mapsto> \<lparr>closeHandler = True, handling = Handled outcome\<rparr>)\<rparr>"
  by (auto simp: handleNewConnection_def Let_def split: prod.splits)

lemma countInv_started: "countInv (started f)"
  by (simp add: countInv_def started_def counted_def)

lemma countInv_handleNewConnection:
  assumes inv: "countInv fw" and new: "sockets fw sock = None"
  shows "countInv (handleNewConnection cfg geo now fw sock ra)"
proof (cases "activeConnections fw \<ge> maxConnections cfg")
  case True
  have "counted (fw\<lparr>sockets := (sockets fw)(sock \<mapsto>
          \<lparr>closeHandler = False, handling = RejectedMaxConnections\<rparr>)\<rparr>) = counted fw"
    using new by (auto simp: counted_def)
  with inv show ?thesis
    by (simp add: handleNewConnection_at_cap [OF True] countInv_def)
next
  case False
  then have lt: "activeConnections fw < maxConnections cfg" by simp
  from handleNewConnection_below_cap [OF lt, of geo now sock ra]
  obtain outcome f1 where eq: "handleNewConnection cfg geo now fw sock ra =
     fw\<lparr>activeConnections := activeConnections fw + 1, ipFilter := f1,
        sockets := (sockets fw)(sock \<mapsto> \<lparr>closeHandler = True, handling = Handled outcome\<rparr>)\<rparr>"
    by blast
  have c: "counted (handleNewConnection cfg geo now fw sock ra) = insert sock (counted fw)"
    unfolding eq using new by (auto simp: counted_def)
  have fin: "finite (counted fw)"
    using inv counted_subset_dom [of fw] by (auto simp: countInv_def intro: finite_subset)
  have notin: "sock \<notin> counted fw"
    using new by (simp add: counted_def)
  have "card (counted (handleNewConnection cfg geo now fw sock ra)) = Suc (card (counted fw))"
    unfolding c using fin notin by simp
  moreover have "activeConnections (handleNewConnection cfg geo now fw sock ra)
                   = activeConnections fw + 1"
    unfolding eq by simp
  moreover have "finite (dom (sockets (handleNewConnection cfg geo now fw sock ra)))"
    unfolding eq using inv by (simp add: countInv_def)
  ultimately show ?thesis
    using inv by (simp add: countInv_def)
qed

lemma countInv_socketClosed:
  assumes inv: "countInv fw"
  shows "countInv (socketClosed fw sock)"
proof (cases "sockets fw sock")
  case None
  with inv show ?thesis by (simp add: socketClosed_def)
next
  case (Some cs)
  have fin: "finite (counted fw)"
    using inv counted_subset_dom [of fw] by (auto simp: countInv_def intro: finite_subset)
  show ?thesis
  proof (cases "closeHandler cs")
    case True
    have c: "counted (socketClosed fw sock) = counted fw - {sock}"
      using Some True by (auto simp: socketClosed_def counted_def)
    have m: "sock \<in> counted fw"
      using Some True by (simp add: counted_def)
    then have "card (counted fw) > 0" using fin by (auto simp: card_gt_0_iff)
    then have "int (card (counted fw - {sock})) = int (card (counted fw)) - 1"
      using m fin by (simp add: card_Diff_singleton of_nat_diff)
    moreover have "activeConnections (socketClosed fw sock) = activeConnections fw - 1"
      using Some True by (simp add: socketClosed_def)
    moreover have "finite (dom (sockets (socketClosed fw sock)))"
      using Some True inv by (simp add: socketClosed_def countInv_def)
    ultimately show ?thesis using inv c by (simp add: countInv_def)
  next
    case False
    have c: "counted (socketClosed fw sock) = counted fw"
      using Some False by (auto simp: socketClosed_def counted_def)
    moreover have "activeConnections (socketClosed fw sock) = activeConnections fw"
      using Some False by (simp add: socketClosed_def)
    moreover have "finite (dom (sockets (socketClosed fw sock)))"
      using Some False inv by (simp add: socketClosed_def countInv_def)
    ultimately show ?thesis using inv by (simp add: countInv_def)
  qed
qed

lemma countInv_sshClientConnected:
  "countInv fw \<Longrightarrow> countInv (snd (sshClientConnected cfg fw now ra))"
  by (auto simp: sshClientConnected_def countInv_def counted_def Let_def
      split: option.splits prod.splits)

lemma countInv_step: "countInv fw \<Longrightarrow> countInv (step cfg geo fw ev)"
  by (cases ev)
     (simp_all add: countInv_handleNewConnection countInv_socketClosed
        countInv_sshClientConnected)

lemma countInv_run: "countInv fw \<Longrightarrow> countInv (run cfg geo fw evs)"
  unfolding run_def by (induction evs arbitrary: fw) (simp_all add: countInv_step)

lemma bounded_step:
  assumes "activeConnections fw \<le> maxConnections cfg"
  shows "activeConnections (step cfg geo fw ev) \<le> maxConnections cfg"
proof (cases ev)
  case (Connection sock ra now)
  show ?thesis
  proof (cases "activeConnections fw \<ge> maxConnections cfg")
    case True
    with assms Connection show ?thesis
      by (simp add: handleNewConnection_at_cap)
  next
    case False
    then have lt: "activeConnections fw < maxConnections cfg" by simp
    from handleNewConnection_below_cap [OF lt, of geo now sock ra]
    obtain outcome f1 where eq: "handleNewConnection cfg geo now fw sock ra =
       fw\<lparr>activeConnections := activeConnections fw + 1, ipFilter := f1,
          sockets := (sockets fw)(sock \<mapsto> \<lparr>closeHandler = True, handling = Handled outcome\<rparr>)\<rparr>"
      by blast
    with lt assms Connection show ?thesis by simp
  qed
next
  case (Closed sock)
  with assms show ?thesis
    by (simp add: socketClosed_def split: option.splits)
next
  case (SshConnection ra now)
  with assms show ?thesis
    by (simp add: sshClientConnected_def Let_def split: option.splits prod.splits)
qed

lemma bounded_run:
  "activeConnections fw \<le> maxConnections cfg \<Longrightarrow>
   activeConnections (run cfg geo fw evs) \<le> maxConnections cfg"
  unfolding run_def by (induction evs arbitrary: fw) (simp_all add: bounded_step)

lemma dom_sockets_step:
  "dom (sockets (step cfg geo fw ev)) = openStep (dom (sockets fw)) ev"
proof (cases ev)
  case (Connection sock ra now)
  show ?thesis
  proof (cases "sockets fw sock")
    case None
    have "dom (sockets (handleNewConnection cfg geo now fw sock ra)) = insert sock (dom (sockets fw))"
      by (cases "activeConnections fw \<ge> maxConnections cfg")
         (auto simp: handleNewConnection_def Let_def split: prod.splits)
    with None Connection show ?thesis by (simp add: openStep_def)
  next
    case (Some cs)
    then have "insert sock (dom (sockets fw)) = dom (sockets fw)" by auto
    with Some Connection show ?thesis by (simp add: openStep_def)
  qed
next
  case (Closed sock)
  then show ?thesis
    by (auto simp: openStep_def socketClosed_def split: option.splits if_splits)
next
  case (SshConnection ra now)
  then show ?thesis
    by (simp add: openStep_def sshClientConnected_def Let_def split: option.splits prod.splits)
qed

lemma dom_sockets_foldl:
  "dom (sockets (foldl (step cfg geo) fw evs)) = foldl openStep (dom (sockets fw)) evs"
  by (induction evs arbitrary: fw) (simp_all add: dom_sockets_step)

lemma dom_sockets_run:
  "dom (sockets (run cfg geo (started f) evs)) = openAfter evs"
  by (simp add: run_def openAfter_def dom_sockets_foldl started_def)

text \<open>
  Connections at the TCP listener are capped and counted. From a started firewall, whatever
  events happen, \<open>activeConnections\<close> does not exceed a cap that is not negative, the
  sockets the firewall holds are the open ones, and the counter is the number of open
  sockets that carry the decrementing \<open>close\<close> handler. A connection that arrives at the
  TCP listener at the cap is ended at once and only its socket is recorded. Closing a
  counted socket takes one off the counter and the socket out of the open ones. The SSH
  connection handler leaves the counter and the sockets as they are.
\<close>

lemma tcp_counter_bounded:
  "(0 \<le> maxConnections cfg \<longrightarrow>
      activeConnections (run cfg geo (started f) evs) \<le> maxConnections cfg)
   \<and> dom (sockets (run cfg geo (started f) evs)) = openAfter evs
   \<and> activeConnections (run cfg geo (started f) evs)
       = int (card (counted (run cfg geo (started f) evs)))
   \<and> (activeConnections fw \<ge> maxConnections cfg \<longrightarrow>
        handleNewConnection cfg geo now fw sock ra =
          fw\<lparr>sockets := (sockets fw)(sock \<mapsto>
               \<lparr>closeHandler = False, handling = RejectedMaxConnections\<rparr>)\<rparr>)"
proof -
  have a: "0 \<le> maxConnections cfg \<longrightarrow>
      activeConnections (run cfg geo (started f) evs) \<le> maxConnections cfg"
    using bounded_run [of "started f" cfg geo evs] by (simp add: started_def)
  have b: "activeConnections (run cfg geo (started f) evs)
       = int (card (counted (run cfg geo (started f) evs)))"
    using countInv_run [OF countInv_started, of cfg geo f evs] by (simp add: countInv_def)
  from a b show ?thesis
    by (simp add: handleNewConnection_at_cap dom_sockets_run)
qed

lemma socketClosed_counted:
  "sockets fw sock = Some cs \<Longrightarrow> closeHandler cs \<Longrightarrow>
   activeConnections (socketClosed fw sock) = activeConnections fw - 1
   \<and> sockets (socketClosed fw sock) sock = None"
  by (simp add: socketClosed_def)

lemma sshClientConnected_counter:
  "activeConnections (snd (sshClientConnected cfg fw now ra)) = activeConnections fw
   \<and> sockets (snd (sshClientConnected cfg fw now ra)) = sockets fw"
  by (simp add: sshClientConnected_def Let_def split: option.splits prod.splits)

text \<open>
  C5: the counter is bounded by the cap at every reachable state; a new connection that
  arrives when the counter equals the cap is closed at once without being handed to
  admission; each admitted session contributes one increment and one matching decrement.
  The code does this for connections at the TCP listener (\<open>tcp_counter_bounded\<close>,
  \<open>socketClosed_counted\<close>) and not for connections at the SSH listener. With a cap of 1
  and one TCP connection open, a second TCP connection is refused at the cap, while an SSH
  client that connects at the same moment is handed to the IP filter, which records the
  attempt, and goes on to authentication; the counter stays at 1, also after two SSH
  clients have been let in.
\<close>

theorem ssh_connection_at_cap_admitted:
  "activeConnections fullFirewall = 1
   \<and> maxConnections singleSlotConfig = 1
   \<and> sockets (handleNewConnection singleSlotConfig None 5 fullFirewall 2 (Some ''203.0.113.9'')) 2
       = Some \<lparr>closeHandler = False, handling = RejectedMaxConnections\<rparr>
   \<and> fst (sshClientConnected singleSlotConfig fullFirewall 5 (Some ''203.0.113.9'')) = True
   \<and> activeConnections (snd (sshClientConnected singleSlotConfig fullFirewall 5 (Some ''203.0.113.9'')))
       = 1
   \<and> map_option (\<lambda>f. connectionAttempts f ''203.0.113.9'')
        (ipFilter (snd (sshClientConnected singleSlotConfig fullFirewall 5 (Some ''203.0.113.9''))))
       = Some (Some [5])
   \<and> activeConnections
        (run singleSlotConfig None (started (Some emptyFilter))
           [Connection 1 (Some ''203.0.113.7'') 0, SshConnection (Some ''203.0.113.9'') 5,
            SshConnection (Some ''203.0.113.10'') 6]) = 1"
  by code_simp

text \<open>
  C4, as stated: a connection that the admission checks reject never increments the
  counter. It fails: \<open>handleNewConnection\<close> increments before it hands the socket to the
  proxy, so a connection from a blocklisted address is counted although the IP filter
  rejects it.
\<close>

theorem rejected_connection_counted_counterexample:
  "activeConnections blocklistedFirewall = 0
   \<and> activeConnections
        (handleNewConnection exampleConfig None 0 blocklistedFirewall 1 (Some ''203.0.113.7'')) = 1
   \<and> sockets
        (handleNewConnection exampleConfig None 0 blocklistedFirewall 1 (Some ''203.0.113.7'')) 1 =
       Some \<lparr>closeHandler = True,
             handling = Handled (RejectedByIPFilter (Some ''IP in blocklist''))\<rparr>"
  by code_simp

text \<open>
  C4, amended: the counter is incremented when a new TCP connection passes the
  max-connections check, before the admission checks run and whatever their outcome; a
  connection the checks reject is counted until its socket closes. The counter is
  decremented exactly once per counted connection, when the client socket closes: closing
  brings the counter back to its value before the connection, a connection refused at the
  cap changes it neither on arrival nor on close, and a closed socket is no longer open,
  so closing it again changes nothing.
\<close>

theorem counted_before_admission:
  "(activeConnections fw < maxConnections cfg \<longrightarrow>
      activeConnections (handleNewConnection cfg geo now fw sock ra) = activeConnections fw + 1
      \<and> activeConnections (socketClosed (handleNewConnection cfg geo now fw sock ra) sock)
          = activeConnections fw)
   \<and> (activeConnections fw \<ge> maxConnections cfg \<longrightarrow>
      activeConnections (handleNewConnection cfg geo now fw sock ra) = activeConnections fw
      \<and> activeConnections (socketClosed (handleNewConnection cfg geo now fw sock ra) sock)
          = activeConnections fw)
   \<and> sockets (socketClosed fw sock) sock = None
   \<and> socketClosed (socketClosed fw sock) sock = socketClosed fw sock"
proof -
  have a: "activeConnections fw < maxConnections cfg \<longrightarrow>
      activeConnections (handleNewConnection cfg geo now fw sock ra) = activeConnections fw + 1
      \<and> activeConnections (socketClosed (handleNewConnection cfg geo now fw sock ra) sock)
          = activeConnections fw"
  proof
    assume lt: "activeConnections fw < maxConnections cfg"
    from handleNewConnection_below_cap [OF lt, of geo now sock ra]
    obtain outcome f1 where eq: "handleNewConnection cfg geo now fw sock ra =
       fw\<lparr>activeConnections := activeConnections fw + 1, ipFilter := f1,
          sockets := (sockets fw)(sock \<mapsto> \<lparr>closeHandler = True, handling = Handled outcome\<rparr>)\<rparr>"
      by blast
    show "activeConnections (handleNewConnection cfg geo now fw sock ra) = activeConnections fw + 1
      \<and> activeConnections (socketClosed (handleNewConnection cfg geo now fw sock ra) sock)
          = activeConnections fw"
      unfolding eq by (simp add: socketClosed_def)
  qed
  have b: "activeConnections fw \<ge> maxConnections cfg \<longrightarrow>
      activeConnections (handleNewConnection cfg geo now fw sock ra) = activeConnections fw
      \<and> activeConnections (socketClosed (handleNewConnection cfg geo now fw sock ra) sock)
          = activeConnections fw"
    by (simp add: handleNewConnection_at_cap socketClosed_def)
  have c: "sockets (socketClosed fw sock) sock = None"
    by (simp add: socketClosed_def split: option.splits)
  have d: "socketClosed (socketClosed fw sock) sock = socketClosed fw sock"
    using c by (simp add: socketClosed_def [of "socketClosed fw sock"])
  from a b c d show ?thesis by blast
qed

theorem counted_before_admission_witness:
  "activeConnections
     (handleNewConnection exampleConfig None 0 blocklistedFirewall 1 (Some ''203.0.113.7'')) = 1
   \<and> activeConnections
       (socketClosed
          (handleNewConnection exampleConfig None 0 blocklistedFirewall 1 (Some ''203.0.113.7'')) 1) = 0
   \<and> activeConnections
       (handleNewConnection (exampleConfig\<lparr>maxConnections := 0\<rparr>) None 0 blocklistedFirewall 1
          (Some ''203.0.113.7'')) = 0
   \<and> activeConnections
       (socketClosed
          (handleNewConnection (exampleConfig\<lparr>maxConnections := 0\<rparr>) None 0 blocklistedFirewall 1
             (Some ''203.0.113.7'')) 1) = 0"
  using counted_before_admission [of blocklistedFirewall exampleConfig None 0 1 "Some ''203.0.113.7''"]
    counted_before_admission [of blocklistedFirewall "exampleConfig\<lparr>maxConnections := 0\<rparr>" None 0 1
      "Some ''203.0.113.7''"]
  by (simp add: blocklistedFirewall_def started_def exampleConfig_def)

section \<open>CIDR matching\<close>

text \<open>
  The mask of \<open>ipMatchesCIDR\<close> for a prefix length from 1 to 32 clears the low
  \<open>32 - N\<close> bits, and two addresses then match exactly when they agree above them. For
  the prefix length 0 the shift count 32 is taken modulo 32: nothing is shifted, the mask
  is all ones, and the addresses match only when they are equal.
\<close>

lemma and_not_mask_eq_iff:
  fixes x y :: "32 word"
  shows "(x AND NOT (mask k) = y AND NOT (mask k)) = (drop_bit k x = drop_bit k y)"
proof
  assume h: "x AND NOT (mask k) = y AND NOT (mask k)"
  show "drop_bit k x = drop_bit k y"
  proof (rule bit_word_eqI)
    fix j
    have "bit (x AND NOT (mask k)) (k + j) = bit (y AND NOT (mask k)) (k + j)"
      using h by simp
    then show "bit (drop_bit k x) j = bit (drop_bit k y) j"
      by (auto simp: bit_simps dest: bit_imp_le_length)
  qed
next
  assume h: "drop_bit k x = drop_bit k y"
  show "x AND NOT (mask k) = y AND NOT (mask k)"
  proof (rule bit_word_eqI)
    fix i
    show "bit (x AND NOT (mask k)) i = bit (y AND NOT (mask k)) i"
    proof (cases "k \<le> i")
      case True
      have "bit (drop_bit k x) (i - k) = bit (drop_bit k y) (i - k)"
        using h by simp
      with True show ?thesis by (simp add: bit_simps)
    next
      case False
      then show ?thesis by (simp add: bit_simps)
    qed
  qed
qed

lemma cidrMask_prefix:
  assumes "parseInt b = Some n" and "1 \<le> n" and "n \<le> 32"
  shows "cidrMask b = NOT (mask (nat (32 - n)))"
proof -
  from assms have "(32 - n) mod 32 = 32 - n" by presburger
  with assms(1) show ?thesis
    by (simp add: cidrMask_def)
qed

lemma cidrMask_zero:
  assumes "parseInt b = Some 0"
  shows "cidrMask b = - 1"
  using assms by (simp add: cidrMask_def)

lemma ipMatchesCIDR_prefix:
  assumes "split (CHR ''/'') cidr = r # b # rest" and "b \<noteq> []"
    and "ipToInt a = Some x" and "ipToInt r = Some y"
    and "parseInt b = Some n" and "1 \<le> n" and "n \<le> 32"
  shows "ipMatchesCIDR a cidr = (drop_bit (nat (32 - n)) x = drop_bit (nat (32 - n)) y)"
  using assms
  by (simp add: ipMatchesCIDR_def cidrMask_prefix [OF assms(5-7)] and_not_mask_eq_iff)

lemma ipMatchesCIDR_zero:
  assumes "split (CHR ''/'') cidr = r # b # rest" and "b \<noteq> []"
    and "ipToInt a = Some x" and "ipToInt r = Some y"
    and "parseInt b = Some 0"
  shows "ipMatchesCIDR a cidr = (x = y)"
  using assms
  by (simp add: ipMatchesCIDR_def cidrMask_zero)

text \<open>
  \<open>ipToInt\<close> of four dot-separated numbers is their big-endian combination, modulo
  \<open>2^32\<close>.
\<close>

lemma toInt32_ipToIntStep:
  "parseInt p = Some n \<Longrightarrow>
   toInt32 (ipToIntStep acc p) = push_bit 8 (toInt32 acc) + word_of_int n"
  by (simp add: ipToIntStep_def toInt32_def)

lemma ipToInt_dotted:
  assumes "split (CHR ''.'') a = [p1, p2, p3, p4]"
    and "parseInt p1 = Some n1" and "parseInt p2 = Some n2"
    and "parseInt p3 = Some n3" and "parseInt p4 = Some n4"
  shows "ipToInt a = Some (word_of_int (n1 * 2 ^ 24 + n2 * 2 ^ 16 + n3 * 2 ^ 8 + n4))"
proof -
  have "toInt32 (foldl ipToIntStep (Some 0) [p1, p2, p3, p4]) =
          push_bit 8 (push_bit 8 (push_bit 8 (push_bit 8 0 + word_of_int n1) + word_of_int n2)
            + word_of_int n3) + word_of_int n4"
    using assms(2-5) by (simp add: toInt32_ipToIntStep) (simp add: toInt32_def)
  also have "\<dots> = word_of_int (n1 * 2 ^ 24 + n2 * 2 ^ 16 + n3 * 2 ^ 8 + n4)"
    by (simp add: push_bit_eq_mult algebra_simps)
  finally show ?thesis
    using assms(1) by (simp add: ipToInt_def)
qed

text \<open>
  C7: an IPv4 address matches an IPv4 \<open>/N\<close> entry exactly when both agree on their high
  \<open>N\<close> bits, for every \<open>N\<close> from 0 to 32; so a \<open>/0\<close> entry matches every address. The
  code does that for \<open>N\<close> from 1 to 32 (\<open>ipMatchesCIDR_prefix\<close>, \<open>ipToInt_dotted\<close>). For
  \<open>N = 0\<close> it does not: the mask of \<open>/0\<close> is all ones, \<open>1.2.3.4\<close> does not match
  \<open>0.0.0.0/0\<close>, and only the base address itself does.
\<close>

theorem cidr_prefix_zero_matches_only_base:
  "cidrMask ''0'' = - 1
   \<and> ipToInt ''1.2.3.4'' = Some 16909060
   \<and> ipToInt ''0.0.0.0'' = Some 0
   \<and> ipMatchesCIDR ''1.2.3.4'' ''0.0.0.0/0'' = False
   \<and> ipMatchesCIDR ''0.0.0.0'' ''0.0.0.0/0'' = True"
  by code_simp

section \<open>Rate limiting\<close>











end
